theory Spec2Isabelle
  imports
    Main
    "HOL-Library.Multiset"
    "HOL-Library.Char_ord"
    "HOL-Library.List_Lexorder"
    "HOL-Library.Product_Lexorder"
begin

section \<open>Strings of the interpreter\<close>

text \<open>
  The scanner is a Python script (\<^verbatim>\<open>scripts/scan.py\<close>). Its strings are sequences of code
  points; the model takes them as \<^typ>\<open>string\<close>, whose characters are the code points
  0 to 255. In that range the decimal digits of the regular-expression class \<^verbatim>\<open>\d\<close>
  are the ten ASCII digits, and the white space of \<^verbatim>\<open>str.split()\<close> and
  \<^verbatim>\<open>str.strip()\<close> is the twelve code points listed in \<open>is_space\<close>.
  Python's integers are unbounded and are modelled as \<^typ>\<open>int\<close>.
\<close>

definition is_digit :: "char \<Rightarrow> bool" where
  "is_digit c = (c \<in> set ''0123456789'')"

definition is_space :: "char \<Rightarrow> bool" where
  "is_space c = (c \<in> set [CHR 0x09, CHR 0x0A, CHR 0x0B, CHR 0x0C, CHR 0x0D,
                            CHR 0x1C, CHR 0x1D, CHR 0x1E, CHR 0x1F, CHR 0x20,
                            CHR 0x85, CHR 0xA0])"

text \<open>The line boundaries of \<^verbatim>\<open>str.splitlines()\<close> other than carriage return.\<close>

definition is_linebreak :: "char \<Rightarrow> bool" where
  "is_linebreak c = (c \<in> set [CHR 0x0A, CHR 0x0B, CHR 0x0C, CHR 0x1C, CHR 0x1D, CHR 0x1E,
                                CHR 0x85])"

text \<open>\<^verbatim>\<open>s.strip()\<close>: white space removed at both ends.\<close>

definition strip :: "string \<Rightarrow> string" where
  "strip s = rev (dropWhile is_space (rev (dropWhile is_space s)))"

text \<open>
  \<^verbatim>\<open>s.splitlines()\<close>: the text is cut at every line boundary, a carriage return followed
  by a line feed counting as one boundary; a boundary at the very end opens no further
  line. The first argument is the line collected so far.
\<close>

fun splitlines_from :: "string \<Rightarrow> string \<Rightarrow> string list" where
  "splitlines_from cur [] = (if cur = [] then [] else [cur])"
| "splitlines_from cur (c # cs) =
     (if c = CHR 0x0D then
        (case cs of
           [] \<Rightarrow> [cur]
         | d # ds \<Rightarrow> if d = CHR 0x0A then cur # splitlines_from [] ds
                     else cur # splitlines_from [] (d # ds))
      else if is_linebreak c then cur # splitlines_from [] cs
      else splitlines_from (cur @ [c]) cs)"

definition splitlines :: "string \<Rightarrow> string list" where
  "splitlines s = splitlines_from [] s"

text \<open>
  \<^verbatim>\<open>s.split()\<close> with no separator: the maximal runs of characters that are not white
  space. The first argument is the column collected so far.
\<close>

fun split_from :: "string \<Rightarrow> string \<Rightarrow> string list" where
  "split_from w [] = (if w = [] then [] else [w])"
| "split_from w (c # cs) =
     (if is_space c then (if w = [] then split_from [] cs else w # split_from [] cs)
      else split_from (w @ [c]) cs)"

definition split_ws :: "string \<Rightarrow> string list" where
  "split_ws s = split_from [] s"

text \<open>\<^verbatim>\<open>s.split(sep)\<close> for a separator of one character: every occurrence cuts.\<close>

fun split_on_from :: "char \<Rightarrow> string \<Rightarrow> string \<Rightarrow> string list" where
  "split_on_from sep w [] = [w]"
| "split_on_from sep w (c # cs) =
     (if c = sep then w # split_on_from sep [] cs else split_on_from sep (w @ [c]) cs)"

definition split_on :: "char \<Rightarrow> string \<Rightarrow> string list" where
  "split_on sep s = split_on_from sep [] s"

text \<open>The value of a string of decimal digits.\<close>

definition digit_val :: "char \<Rightarrow> int" where
  "digit_val c = int (of_char c) - 48"

definition int_of_digits :: "string \<Rightarrow> int" where
  "int_of_digits ds = foldl (\<lambda>a c. 10 * a + digit_val c) 0 ds"

text \<open>
  \<^verbatim>\<open>int(s)\<close> on a string, base ten: white space is removed at both ends (the C white
  space and the two code points 0x85 and 0xA0), one sign may follow, and the rest must be
  groups of digits separated by single underscores. The interpreter also refuses a
  literal of more digits than \<^verbatim>\<open>sys.get_int_max_str_digits()\<close>, 4300 unless configured
  otherwise; leading zeros count, underscores do not. In every other case, and above that
  limit, \<^verbatim>\<open>int\<close> raises \<^verbatim>\<open>ValueError\<close>, modelled as \<open>None\<close>.
\<close>

definition int_max_str_digits :: nat where
  "int_max_str_digits = 4300"

definition is_int_space :: "char \<Rightarrow> bool" where
  "is_int_space c = (c \<in> set [CHR 0x09, CHR 0x0A, CHR 0x0B, CHR 0x0C, CHR 0x0D, CHR 0x20,
                                CHR 0x85, CHR 0xA0])"

fun digit_groups :: "string \<Rightarrow> bool" where
  "digit_groups [] = False"
| "digit_groups [c] = is_digit c"
| "digit_groups (c # d # cs) =
     (is_digit c \<and> (if d = CHR ''_'' then digit_groups cs else digit_groups (d # cs)))"

definition py_int :: "string \<Rightarrow> int option" where
  "py_int s =
     (let t = rev (dropWhile is_int_space (rev (dropWhile is_int_space s)));
          neg = (case t of [] \<Rightarrow> False | c # cs \<Rightarrow> c = CHR ''-'');
          body = (case t of [] \<Rightarrow> [] | c # cs \<Rightarrow> if c = CHR ''+'' \<or> c = CHR ''-'' then cs else t);
          ds = filter (\<lambda>c. c \<noteq> CHR ''_'') body
      in if digit_groups body \<and> length ds \<le> int_max_str_digits
         then Some ((if neg then - 1 else 1) * int_of_digits ds)
         else None)"

text \<open>The exception of \<^verbatim>\<open>int()\<close>, carrying the string that was refused.\<close>

datatype exn = ValueError string

section \<open>The two regular expressions\<close>

text \<open>
  \<^verbatim>\<open>re.search(r":(\d+)$", s)\<close>: the leftmost colon that is followed by one or more
  digits and then by the end of the string, where \<^verbatim>\<open>$\<close> also matches just before a
  line feed that ends the string. The result is group 1, the digits.
\<close>

definition digits_to_end :: "string \<Rightarrow> bool" where
  "digits_to_end s =
     (takeWhile is_digit s \<noteq> [] \<and>
      (dropWhile is_digit s = [] \<or> dropWhile is_digit s = [CHR 0x0A]))"

fun port_search :: "string \<Rightarrow> string option" where
  "port_search [] = None"
| "port_search (c # cs) =
     (if c = CHR '':'' \<and> digits_to_end cs then Some (takeWhile is_digit cs)
      else port_search cs)"

text \<open>
  \<^verbatim>\<open>re.search(r'\("([^"]+)",pid=(\d+)', s)\<close>: an opening parenthesis and a double quote,
  a non-empty run of characters other than the double quote (group 1), then
  \<^verbatim>\<open>",pid=\<close> and a non-empty run of digits (group 2, as long as possible). The run of
  group 1 cannot stop before the first double quote, so the match at a given position
  is unique. \<open>proc_match\<close> is the match anchored at the start, \<open>proc_search\<close> tries
  every position from the left.
\<close>

definition proc_match :: "string \<Rightarrow> (string \<times> string) option" where
  "proc_match s =
     (if take 2 s = [CHR ''('', CHR 0x22] then
        (let name = takeWhile (\<lambda>c. c \<noteq> CHR 0x22) (drop 2 s);
             rest = dropWhile (\<lambda>c. c \<noteq> CHR 0x22) (drop 2 s);
             ds = takeWhile is_digit (drop 6 rest)
         in if name \<noteq> [] \<and> take 6 rest = CHR 0x22 # '',pid='' \<and> ds \<noteq> []
            then Some (name, ds) else None)
      else None)"

fun proc_search :: "string \<Rightarrow> (string \<times> string) option" where
  "proc_search [] = None"
| "proc_search (c # cs) =
     (case proc_match (c # cs) of Some r \<Rightarrow> Some r | None \<Rightarrow> proc_search cs)"

section \<open>Entries and the two enumerators\<close>

text \<open>
  An entry is the dictionary \<^verbatim>\<open>{"proto": .., "port": .., "pid": .., "process": ..}\<close>
  built by the scanners; its four keys are fixed, so it is a record.
\<close>

record entry =
  proto :: string
  port :: int
  pid :: string
  process :: string

text \<open>
  What \<^verbatim>\<open>subprocess.run(cmd, capture_output=True, text=True, timeout=15)\<close> can do: it
  returns with the standard output of the command, or raises one of the two exceptions
  the scanners catch (any other exception would leave the scanner and is outside the
  model). The environment is a function from the command line to that outcome.
\<close>

datatype run_result = Completed string | TimeoutExpired | FileNotFoundError

type_synonym runner = "string list \<Rightarrow> run_result"

text \<open>
  The loop of \<^verbatim>\<open>scan_macos\<close> over the lines of \<^verbatim>\<open>lsof\<close> (the same for both
  protocols): a line of fewer than nine columns is skipped, and so is one whose ninth
  column does not end in a colon and digits. The last argument is \<^verbatim>\<open>entries\<close>.
  \<^verbatim>\<open>int(match.group(1))\<close> is inside the \<^verbatim>\<open>try\<close> block, which catches two exceptions
  of \<^verbatim>\<open>subprocess\<close> only: a \<^verbatim>\<open>ValueError\<close> of \<^verbatim>\<open>int\<close> leaves the loop and the
  scanner (\<open>Inl\<close>).
\<close>

fun lsof_lines :: "string \<Rightarrow> string list \<Rightarrow> entry list \<Rightarrow> exn + entry list" where
  "lsof_lines pr [] entries = Inr entries"
| "lsof_lines pr (line # lines) entries =
     (let cols = split_ws line in
      if length cols < 9 then lsof_lines pr lines entries
      else
        (case port_search (cols ! 8) of
           Some m \<Rightarrow>
             (case py_int m of
                None \<Rightarrow> Inl (ValueError m)
              | Some p \<Rightarrow>
                  lsof_lines pr lines
                    (entries @ [\<lparr>proto = pr, port = p, pid = cols ! 1, process = cols ! 0\<rparr>]))
         | None \<Rightarrow> lsof_lines pr lines entries))"

text \<open>One \<^verbatim>\<open>try\<close> block of \<^verbatim>\<open>scan_macos\<close>: the header line is dropped by \<^verbatim>\<open>[1:]\<close>.\<close>

definition lsof_block ::
  "runner \<Rightarrow> string list \<Rightarrow> string \<Rightarrow> entry list \<Rightarrow> exn + entry list" where
  "lsof_block run cmd pr entries =
     (case run cmd of
        Completed out \<Rightarrow> lsof_lines pr (drop 1 (splitlines (strip out))) entries
      | TimeoutExpired \<Rightarrow> Inr entries
      | FileNotFoundError \<Rightarrow> Inr entries)"

definition scan_macos :: "runner \<Rightarrow> exn + entry list" where
  "scan_macos run =
     (case lsof_block run [''lsof'', ''-i'', ''-P'', ''-n'', ''-sTCP:LISTEN''] ''TCP'' [] of
        Inl e \<Rightarrow> Inl e
      | Inr entries \<Rightarrow> lsof_block run [''lsof'', ''-iUDP'', ''-P'', ''-n''] ''UDP'' entries)"

text \<open>
  The inner loop of \<^verbatim>\<open>scan_linux\<close> over the columns: the first column that holds the
  process annotation gives \<^verbatim>\<open>(proc_str, pid_str)\<close>; both stay empty when none does.
\<close>

fun find_proc :: "string list \<Rightarrow> string \<times> string" where
  "find_proc [] = ('''', '''')"
| "find_proc (col # cols) =
     (case proc_search col of Some pm \<Rightarrow> pm | None \<Rightarrow> find_proc cols)"

text \<open>\<^verbatim>\<open>s or "-"\<close>: the empty string is false.\<close>

definition or_dash :: "string \<Rightarrow> string" where
  "or_dash s = (if s = [] then ''-'' else s)"

text \<open>
  The loop of \<^verbatim>\<open>scan_linux\<close> over the lines of \<^verbatim>\<open>ss\<close>; the port is converted before
  the columns are searched for the annotation.
\<close>

fun ss_lines :: "string \<Rightarrow> string list \<Rightarrow> entry list \<Rightarrow> exn + entry list" where
  "ss_lines pr [] entries = Inr entries"
| "ss_lines pr (line # lines) entries =
     (let cols = split_ws line in
      if length cols < 5 then ss_lines pr lines entries
      else
        (case port_search (cols ! 3) of
           None \<Rightarrow> ss_lines pr lines entries
         | Some m \<Rightarrow>
             (case py_int m of
                None \<Rightarrow> Inl (ValueError m)
              | Some p \<Rightarrow>
                  (let pm = find_proc cols in
                   ss_lines pr lines
                     (entries @ [\<lparr>proto = pr, port = p,
                                  pid = or_dash (snd pm), process = or_dash (fst pm)\<rparr>])))))"

definition ss_block :: "runner \<Rightarrow> string \<Rightarrow> string \<Rightarrow> entry list \<Rightarrow> exn + entry list" where
  "ss_block run pr flag entries =
     (case run [''ss'', flag] of
        Completed out \<Rightarrow> ss_lines pr (drop 1 (splitlines (strip out))) entries
      | TimeoutExpired \<Rightarrow> Inr entries
      | FileNotFoundError \<Rightarrow> Inr entries)"

text \<open>The outer loop of \<^verbatim>\<open>scan_linux\<close> over the pairs of protocol and flag.\<close>

fun ss_protos :: "runner \<Rightarrow> (string \<times> string) list \<Rightarrow> entry list \<Rightarrow> exn + entry list" where
  "ss_protos run [] entries = Inr entries"
| "ss_protos run (pf # pfs) entries =
     (case ss_block run (fst pf) (snd pf) entries of
        Inl e \<Rightarrow> Inl e
      | Inr entries' \<Rightarrow> ss_protos run pfs entries')"

definition scan_linux :: "runner \<Rightarrow> exn + entry list" where
  "scan_linux run = ss_protos run [(''TCP'', ''-tlnp''), (''UDP'', ''-ulnp'')] []"

section \<open>Command-line arguments\<close>

text \<open>The dictionary \<^verbatim>\<open>opts\<close> of \<^verbatim>\<open>parse_args\<close>; \<open>None\<close> is Python's \<^verbatim>\<open>None\<close>.\<close>

record opts =
  format :: string
  range_start :: "int option"
  range_end :: "int option"

text \<open>
  How \<^verbatim>\<open>parse_args\<close> ends: it returns the options, or leaves through
  \<^verbatim>\<open>sys.exit(code)\<close> after printing (the two lists are what went to the standard output
  and to the error stream), or an uncaught \<^verbatim>\<open>ValueError\<close> of \<^verbatim>\<open>int()\<close> leaves it.
\<close>

datatype parse_result =
  Parsed opts
| SysExit int "string list" "string list"
| Raised exn

definition usage_text :: string where
  "usage_text =
     ''Usage: run.sh [OPTIONS]'' @ [CHR 0x0A] @ [CHR 0x0A] @
     ''Options:'' @ [CHR 0x0A] @
     ''  --range START-END   Scan a specific port range (e.g. 3000-9000)'' @ [CHR 0x0A] @
     ''  --common            Scan only well-known ports 1-1024'' @ [CHR 0x0A] @
     ''  --format text|json  Output format (default: text)'' @ [CHR 0x0A] @
     ''  --help              Show this help message''"

text \<open>
  The \<^verbatim>\<open>while\<close> loop of \<^verbatim>\<open>parse_args\<close>: the first argument is \<^verbatim>\<open>argv[i:]\<close>, the
  second is \<^verbatim>\<open>opts\<close>. A flag with a value consumes two arguments.
\<close>

fun parse_loop :: "string list \<Rightarrow> opts \<Rightarrow> parse_result" where
  "parse_loop [] opts = Parsed opts"
| "parse_loop (arg # rest) opts =
     (if arg = ''--help'' then SysExit 0 [usage_text] []
      else if arg = ''--common'' then
        parse_loop rest (opts\<lparr>range_start := Some 1, range_end := Some 1024\<rparr>)
      else if arg = ''--range'' then
        (case rest of
           [] \<Rightarrow> SysExit 1 [] [''Error: --range requires START-END argument'']
         | v # rest' \<Rightarrow>
             (let parts = split_on (CHR ''-'') v in
              if length parts \<noteq> 2 then SysExit 1 [] [''Error: --range format must be START-END'']
              else
                (case py_int (parts ! 0) of
                   None \<Rightarrow> Raised (ValueError (parts ! 0))
                 | Some a \<Rightarrow>
                     (case py_int (parts ! 1) of
                        None \<Rightarrow> Raised (ValueError (parts ! 1))
                      | Some b \<Rightarrow>
                          parse_loop rest' (opts\<lparr>range_start := Some a, range_end := Some b\<rparr>)))))
      else if arg = ''--format'' then
        (case rest of
           [] \<Rightarrow> SysExit 1 [] [''Error: --format requires text|json argument'']
         | v # rest' \<Rightarrow>
             if v \<notin> set [''text'', ''json'']
             then SysExit 1 [] [''Error: --format must be text or json'']
             else parse_loop rest' (opts\<lparr>format := v\<rparr>))
      else SysExit 1 [] [''Unknown option: '' @ arg])"

definition parse_args :: "string list \<Rightarrow> parse_result" where
  "parse_args argv = parse_loop argv \<lparr>format = ''text'', range_start = None, range_end = None\<rparr>"

section \<open>Filtering, deduplication and order\<close>

text \<open>
  The deduplication loop of \<^verbatim>\<open>filter_ports\<close>: the second argument is the set
  \<^verbatim>\<open>seen\<close>, the third the list \<^verbatim>\<open>unique\<close>; \<open>entry_key\<close> is the tuple
  \<^verbatim>\<open>(e["proto"], e["port"], e["pid"])\<close>.
\<close>

definition entry_key :: "entry \<Rightarrow> string \<times> int \<times> string" where
  "entry_key e = (proto e, port e, pid e)"

fun dedup :: "entry list \<Rightarrow> (string \<times> int \<times> string) set \<Rightarrow> entry list \<Rightarrow> entry list" where
  "dedup [] seen unique = unique"
| "dedup (e # es) seen unique =
     (let key = entry_key e in
      if key \<notin> seen then dedup es (insert key seen) (unique @ [e])
      else dedup es seen unique)"

text \<open>
  \<^verbatim>\<open>unique.sort(key=lambda e: (e["port"], e["proto"]))\<close> is a stable sort on pairs, which
  Python compares lexicographically, the strings by code point. A stable sort has one
  possible result for a given key order, so it is \<^const>\<open>sort_key\<close> on the lexicographic
  order of \<^typ>\<open>int \<times> string\<close>.
\<close>

definition filter_ports :: "entry list \<Rightarrow> opts \<Rightarrow> entry list" where
  "filter_ports entries opts =
     (let entries' =
        (case range_start opts of
           None \<Rightarrow> entries
         | Some lo \<Rightarrow>
             (case range_end opts of
                None \<Rightarrow> entries
              | Some hi \<Rightarrow> filter (\<lambda>e. lo \<le> port e \<and> port e \<le> hi) entries));
          unique = dedup entries' {} []
      in sort_key (\<lambda>e. (port e, proto e)) unique)"

section \<open>Rendering\<close>

text \<open>Decimal notation of an integer, as \<^verbatim>\<open>repr\<close> and the format specifications give it.\<close>

definition digit_char :: "nat \<Rightarrow> char" where
  "digit_char d = ''0123456789abcdef'' ! d"

function nat_repr :: "nat \<Rightarrow> string" where
  "nat_repr n = (if n < 10 then [digit_char n] else nat_repr (n div 10) @ [digit_char (n mod 10)])"
  by pat_completeness auto
termination
  by (relation "measure id") auto

definition int_repr :: "int \<Rightarrow> string" where
  "int_repr i = (if i < 0 then CHR ''-'' # nat_repr (nat (- i)) else nat_repr (nat i))"

text \<open>The format specifications \<^verbatim>\<open>:<n\<close> and \<^verbatim>\<open>:>n\<close>: padding, never truncation.\<close>

definition ljust :: "nat \<Rightarrow> string \<Rightarrow> string" where
  "ljust n s = s @ replicate (n - length s) CHR '' ''"

definition rjust :: "nat \<Rightarrow> string \<Rightarrow> string" where
  "rjust n s = replicate (n - length s) CHR '' '' @ s"

text \<open>\<^verbatim>\<open>sep.join(xs)\<close>.\<close>

fun join :: "string \<Rightarrow> string list \<Rightarrow> string" where
  "join sep [] = []"
| "join sep [x] = x"
| "join sep (x # y # ys) = x @ sep @ join sep (y # ys)"

definition format_text :: "entry list \<Rightarrow> string" where
  "format_text entries =
     (let header = ljust 6 ''Proto'' @ '' '' @ rjust 6 ''Port'' @ ''  '' @ rjust 8 ''PID'' @ ''  '' @
                   ''Process'';
          sep = replicate 50 CHR ''-'';
          lines = [header, sep] @
                  map (\<lambda>e. ljust 6 (proto e) @ '' '' @ rjust 6 (int_repr (port e)) @ ''  '' @
                            rjust 8 (pid e) @ ''  '' @ process e) entries;
          lines = (if entries = [] then lines @ [''(no listening ports found)''] else lines)
      in join [CHR 0x0A] lines)"

text \<open>
  \<^verbatim>\<open>json.dumps(obj, indent=2)\<close> on the values the scanner builds: strings, integers,
  lists and dictionaries with string keys (in insertion order). With the default
  \<^verbatim>\<open>ensure_ascii\<close> a string keeps its printable ASCII characters, except the double
  quote and the backslash, and escapes every other one. With an indent the item separator is
  a comma and the key separator a colon and a space; an empty container has no line break.
\<close>

datatype json = JStr string | JInt int | JArr "json list" | JObj "(string \<times> json) list"

definition json_escape :: "char \<Rightarrow> string" where
  "json_escape c =
     (if c = CHR 0x22 then [CHR 0x5C, CHR 0x22]
      else if c = CHR 0x5C then [CHR 0x5C, CHR 0x5C]
      else if c = CHR 0x0A then [CHR 0x5C, CHR ''n'']
      else if c = CHR 0x0D then [CHR 0x5C, CHR ''r'']
      else if c = CHR 0x09 then [CHR 0x5C, CHR ''t'']
      else if c = CHR 0x08 then [CHR 0x5C, CHR ''b'']
      else if c = CHR 0x0C then [CHR 0x5C, CHR ''f'']
      else if 32 \<le> (of_char c :: nat) \<and> (of_char c :: nat) \<le> 126 then [c]
      else CHR 0x5C # ''u00'' @ [digit_char (of_char c div 16), digit_char (of_char c mod 16)])"

definition json_string :: "string \<Rightarrow> string" where
  "json_string s = CHR 0x22 # concat (map json_escape s) @ [CHR 0x22]"

definition newline_indent :: "nat \<Rightarrow> string" where
  "newline_indent lvl = CHR 0x0A # replicate (2 * lvl) CHR '' ''"

fun dumps :: "nat \<Rightarrow> json \<Rightarrow> string" where
  "dumps lvl (JStr s) = json_string s"
| "dumps lvl (JInt i) = int_repr i"
| "dumps lvl (JArr xs) =
     (if xs = [] then ''[]''
      else ''['' @ newline_indent (lvl + 1) @
           join ('','' @ newline_indent (lvl + 1)) (map (dumps (lvl + 1)) xs) @
           newline_indent lvl @ '']'')"
| "dumps lvl (JObj kvs) =
     (if kvs = [] then ''{}''
      else ''{'' @ newline_indent (lvl + 1) @
           join ('','' @ newline_indent (lvl + 1))
             (map (\<lambda>kv. json_string (fst kv) @ '': '' @ dumps (lvl + 1) (snd kv)) kvs) @
           newline_indent lvl @ ''}'')"

text \<open>An entry as the dictionary it is, with its keys in insertion order.\<close>

definition entry_json :: "entry \<Rightarrow> json" where
  "entry_json e =
     JObj [(''proto'', JStr (proto e)), (''port'', JInt (port e)),
           (''pid'', JStr (pid e)), (''process'', JStr (process e))]"

definition format_json :: "entry list \<Rightarrow> string" where
  "format_json entries = dumps 0 (JObj [(''ports'', JArr (map entry_json entries))])"

section \<open>The program\<close>

text \<open>
  \<^verbatim>\<open>scan_ports\<close> dispatches on \<^verbatim>\<open>platform.system()\<close>; on any other system it prints
  to the error stream and exits with status 1 (the outer \<open>Inl\<close> carries the message).
  Otherwise the result is that of the scanner: its entries, or the exception that left it.
\<close>

definition scan_ports :: "string \<Rightarrow> runner \<Rightarrow> string + (exn + entry list)" where
  "scan_ports system run =
     (if system = ''Darwin'' then Inr (scan_macos run)
      else if system = ''Linux'' then Inr (scan_linux run)
      else Inl (''Unsupported platform: '' @ system))"

text \<open>
  What a run of the script leaves behind: the exit status and what was written to the two
  streams, one item for each \<^verbatim>\<open>print\<close>. An exception that nothing catches ends the
  interpreter with status 1 after it has written the traceback to the error stream.
\<close>

datatype err_item = Printed string | Traceback exn

record outcome =
  exit_status :: int
  stdout :: "string list"
  stderr :: "err_item list"

definition main :: "string \<Rightarrow> runner \<Rightarrow> string list \<Rightarrow> outcome" where
  "main system run argv =
     (case parse_args argv of
        SysExit code out err \<Rightarrow> \<lparr>exit_status = code, stdout = out, stderr = map Printed err\<rparr>
      | Raised e \<Rightarrow> \<lparr>exit_status = 1, stdout = [], stderr = [Traceback e]\<rparr>
      | Parsed opts \<Rightarrow>
          (case scan_ports system run of
             Inl msg \<Rightarrow> \<lparr>exit_status = 1, stdout = [], stderr = [Printed msg]\<rparr>
           | Inr (Inl e) \<Rightarrow> \<lparr>exit_status = 1, stdout = [], stderr = [Traceback e]\<rparr>
           | Inr (Inr entries) \<Rightarrow>
               (let entries = filter_ports entries opts in
                if format opts = ''json''
                then \<lparr>exit_status = 0, stdout = [format_json entries], stderr = []\<rparr>
                else \<lparr>exit_status = 0, stdout = [format_text entries], stderr = []\<rparr>)))"

section \<open>Environments of the examples\<close>

text \<open>
  Two environments for the concrete runs below: one where neither utility is installed,
  and one where every command prints the given text.
\<close>

definition no_tools :: runner where
  "no_tools cmd = FileNotFoundError"


section \<open>Properties of the filter stage\<close>

lemma dedup_mset: "mset (dedup es seen u) \<subseteq># mset u + mset es"
proof (induction es arbitrary: seen u)
  case Nil
  then show ?case by simp
next
  case (Cons e es)
  have a: "mset (dedup es (insert (entry_key e) seen) (u @ [e])) \<subseteq># mset (u @ [e]) + mset es"
    by (rule Cons.IH)
  have b: "mset (dedup es seen u) \<subseteq># mset u + mset es"
    by (rule Cons.IH)
  have c: "mset u + mset es \<subseteq># mset u + mset (e # es)"
    by simp
  show ?case
    using a subset_mset.trans [OF b c] by (simp add: Let_def)
qed

lemma dedup_distinct:
  "distinct (map entry_key u) \<Longrightarrow> entry_key ` set u \<subseteq> seen \<Longrightarrow>
   distinct (map entry_key (dedup es seen u))"
proof (induction es arbitrary: seen u)
  case Nil
  then show ?case by simp
next
  case (Cons e es)
  show ?case
  proof (cases "entry_key e \<in> seen")
    case True
    then show ?thesis using Cons.IH [OF Cons.prems] by (simp add: Let_def)
  next
    case False
    have d: "distinct (map entry_key (u @ [e]))"
      using Cons.prems False by auto
    have s: "entry_key ` set (u @ [e]) \<subseteq> insert (entry_key e) seen"
      using Cons.prems by auto
    show ?thesis using Cons.IH [OF d s] False by (simp add: Let_def)
  qed
qed

lemma dedup_keys:
  "entry_key ` set (dedup es seen u) = entry_key ` set u \<union> (entry_key ` set es - seen)"
  by (induction es arbitrary: seen u) (auto simp: Let_def)

lemma dedup_distinct_id:
  "distinct (map entry_key es) \<Longrightarrow> entry_key ` set es \<inter> seen = {} \<Longrightarrow> dedup es seen u = u @ es"
  by (induction es arbitrary: seen u) (auto simp: Let_def)

lemma filter_ports_Some:
  "range_start opts = Some lo \<Longrightarrow> range_end opts = Some hi \<Longrightarrow>
   filter_ports entries opts =
     sort_key (\<lambda>e. (port e, proto e)) (dedup (filter (\<lambda>e. lo \<le> port e \<and> port e \<le> hi) entries) {} [])"
  by (simp add: filter_ports_def)

lemma filter_ports_None:
  "range_start opts = None \<or> range_end opts = None \<Longrightarrow>
   filter_ports entries opts = sort_key (\<lambda>e. (port e, proto e)) (dedup entries {} [])"
  by (auto simp: filter_ports_def split: option.splits)

lemma filter_ports_shape:
  "\<exists>es. mset es \<subseteq># mset entries \<and> filter_ports entries opts = sort_key (\<lambda>e. (port e, proto e)) (dedup es {} [])"
proof (cases "range_start opts")
  case None
  then show ?thesis using filter_ports_None [of opts entries] by auto
next
  case (Some lo)
  show ?thesis
  proof (cases "range_end opts")
    case None
    then show ?thesis using filter_ports_None [of opts entries] by auto
  next
    case (Some hi)
    from filter_ports_Some [OF \<open>range_start opts = Some lo\<close> Some, of entries]
    show ?thesis
      by (intro exI [of _ "filter (\<lambda>e. lo \<le> port e \<and> port e \<le> hi) entries"]) simp
  qed
qed

lemma dedup_key_mset:
  "mset (map entry_key (dedup es {} [])) = mset_set (entry_key ` set es)"
proof -
  have d: "distinct (map entry_key (dedup es {} []))"
    by (rule dedup_distinct) simp_all
  have "set (map entry_key (dedup es {} [])) = entry_key ` set es"
    using dedup_keys [of es "{}" "[]"] by simp
  then show ?thesis
    using mset_set_set [OF d] by simp
qed

lemma sorted_mset_unique:
  fixes xs ys :: "'a::linorder list"
  assumes "sorted xs" "sorted ys" "mset xs = mset ys"
  shows "xs = ys"
  using assms properties_for_sort sorted_sort_id by metis

lemma sort_dedup_perm:
  assumes "set es' = set es"
  shows "map (\<lambda>e. (port e, proto e)) (sort_key (\<lambda>e. (port e, proto e)) (dedup es' {} [])) =
         map (\<lambda>e. (port e, proto e)) (sort_key (\<lambda>e. (port e, proto e)) (dedup es {} []))"
proof (rule sorted_mset_unique)
  let ?k = "\<lambda>e. (port e, proto e)"
  let ?g = "\<lambda>k :: string \<times> int \<times> string. (fst (snd k), fst k)"
  show "sorted (map ?k (sort_key ?k (dedup es' {} [])))" by (rule sorted_sort_key)
  show "sorted (map ?k (sort_key ?k (dedup es {} [])))" by (rule sorted_sort_key)
  have k: "image_mset ?k (mset xs) = image_mset ?g (image_mset entry_key (mset xs))" for xs
    by (simp add: multiset.map_comp comp_def entry_key_def)
  have m: "image_mset entry_key (mset (dedup xs {} [])) = mset_set (entry_key ` set xs)" for xs
    using dedup_key_mset [of xs] by simp
  have "image_mset ?k (mset (dedup es' {} [])) = image_mset ?k (mset (dedup es {} []))"
    by (simp only: k m assms)
  then show "mset (map ?k (sort_key ?k (dedup es' {} []))) = mset (map ?k (sort_key ?k (dedup es {} [])))"
    by simp
qed

lemma sorted_wrt_port_proto:
  "sorted_wrt (\<lambda>a b. port a < port b \<or> port a = port b \<and> proto a \<le> proto b)
     (sort_key (\<lambda>e. (port e, proto e)) xs)"
proof -
  have "sorted (map (\<lambda>e. (port e, proto e)) (sort_key (\<lambda>e. (port e, proto e)) xs))"
    by (rule sorted_sort_key)
  then have "sorted_wrt (\<lambda>a b. (port a, proto a) \<le> (port b, proto b))
     (sort_key (\<lambda>e. (port e, proto e)) xs)"
    by (simp only: sorted_map)
  then show ?thesis
    by (rule sorted_wrt_mono_rel [rotated]) (auto simp: less_eq_prod_def)
qed

text \<open>
  Claim C2. When both bounds \<open>lo\<close> and \<open>hi\<close> are set, the list that reaches the
  deduplication and the sort is the input with exactly the entries of port in
  \<open>[lo, hi]\<close> (both ends included): every entry of the result is such an entry of the
  input, every such entry has its key in the result, and when no two entries of the input
  share a key the result is a rearrangement of exactly those entries. When a bound is
  missing, every entry of the input reaches the deduplication and the sort.
\<close>

theorem filter_ports_range:
  "(range_start opts = Some lo \<and> range_end opts = Some hi \<longrightarrow>
      filter_ports entries opts =
        sort_key (\<lambda>e. (port e, proto e))
          (dedup (filter (\<lambda>e. lo \<le> port e \<and> port e \<le> hi) entries) {} []) \<and>
      set (filter_ports entries opts) \<subseteq> {e \<in> set entries. lo \<le> port e \<and> port e \<le> hi} \<and>
      entry_key ` set (filter_ports entries opts) =
        entry_key ` {e \<in> set entries. lo \<le> port e \<and> port e \<le> hi} \<and>
      (distinct (map entry_key entries) \<longrightarrow>
         mset (filter_ports entries opts) =
         mset (filter (\<lambda>e. lo \<le> port e \<and> port e \<le> hi) entries))) \<and>
   (range_start opts = None \<or> range_end opts = None \<longrightarrow>
      filter_ports entries opts = sort_key (\<lambda>e. (port e, proto e)) (dedup entries {} []) \<and>
      entry_key ` set (filter_ports entries opts) = entry_key ` set entries \<and>
      (distinct (map entry_key entries) \<longrightarrow> mset (filter_ports entries opts) = mset entries))"
proof -
  have keys: "\<And>es. entry_key ` set (sort_key (\<lambda>e. (port e, proto e)) (dedup es {} [])) =
                 entry_key ` set es"
    using dedup_keys [of _ "{}" "[]"] by simp
  have sub: "\<And>es. set (sort_key (\<lambda>e. (port e, proto e)) (dedup es {} [])) \<subseteq> set es"
    using dedup_mset [of _ "{}" "[]"] set_mset_mono by fastforce
  have dist: "\<And>es. distinct (map entry_key es) \<Longrightarrow>
                 mset (sort_key (\<lambda>e. (port e, proto e)) (dedup es {} [])) = mset es"
    using dedup_distinct_id [of _ "{}" "[]"] by simp
  have a: ?thesis if r: "range_start opts = Some lo" "range_end opts = Some hi"
  proof -
    let ?F = "filter (\<lambda>e. lo \<le> port e \<and> port e \<le> hi) entries"
    have eq: "filter_ports entries opts = sort_key (\<lambda>e. (port e, proto e)) (dedup ?F {} [])"
      by (rule filter_ports_Some [OF r])
    have 1: "set (filter_ports entries opts) \<subseteq> {e \<in> set entries. lo \<le> port e \<and> port e \<le> hi}"
      unfolding eq using sub [of ?F] by auto
    have 2: "entry_key ` set (filter_ports entries opts) =
        entry_key ` {e \<in> set entries. lo \<le> port e \<and> port e \<le> hi}"
      unfolding eq keys by simp
    have 3: "distinct (map entry_key entries) \<Longrightarrow>
         mset (filter_ports entries opts) = mset ?F"
      unfolding eq by (rule dist) (simp add: distinct_map_filter)
    show ?thesis using r eq 1 2 3 by simp
  qed
  have b: ?thesis if n: "range_start opts = None \<or> range_end opts = None"
  proof -
    have eq: "filter_ports entries opts = sort_key (\<lambda>e. (port e, proto e)) (dedup entries {} [])"
      by (rule filter_ports_None [OF n])
    have 2: "entry_key ` set (filter_ports entries opts) = entry_key ` set entries"
      unfolding eq by (rule keys)
    have 3: "distinct (map entry_key entries) \<Longrightarrow> mset (filter_ports entries opts) = mset entries"
      unfolding eq by (rule dist)
    show ?thesis using n eq 2 3 by auto
  qed
  show ?thesis
  proof (cases "range_start opts = None \<or> range_end opts = None")
    case True
    then show ?thesis by (rule b)
  next
    case False
    then have "range_start opts \<noteq> None" "range_end opts \<noteq> None" by auto
    moreover have "range_start opts = Some lo \<and> range_end opts = Some hi \<Longrightarrow> ?thesis"
      using a by blast
    ultimately show ?thesis
      by (cases "range_start opts = Some lo \<and> range_end opts = Some hi") auto
  qed
qed

theorem filter_ports_range_witness:
  "range_start \<lparr>format = ''text'', range_start = Some 8000, range_end = Some 8100\<rparr> = Some 8000 \<and>
   range_end \<lparr>format = ''text'', range_start = Some 8000, range_end = Some 8100\<rparr> = Some 8100 \<and>
   entry_key `
     set (filter_ports
       [\<lparr>proto = ''TCP'', port = 7999, pid = ''1'', process = ''a''\<rparr>,
        \<lparr>proto = ''TCP'', port = 8000, pid = ''2'', process = ''b''\<rparr>,
        \<lparr>proto = ''TCP'', port = 8100, pid = ''3'', process = ''c''\<rparr>,
        \<lparr>proto = ''TCP'', port = 8101, pid = ''4'', process = ''d''\<rparr>]
       \<lparr>format = ''text'', range_start = Some 8000, range_end = Some 8100\<rparr>) =
   {(''TCP'', 8000, ''2''), (''TCP'', 8100, ''3'')} \<and>
   (range_start \<lparr>format = ''text'', range_start = None, range_end = None\<rparr> = None \<or>
    range_end \<lparr>format = ''text'', range_start = None, range_end = None\<rparr> = None) \<and>
   entry_key `
     set (filter_ports
       [\<lparr>proto = ''TCP'', port = 7999, pid = ''1'', process = ''a''\<rparr>,
        \<lparr>proto = ''TCP'', port = 8101, pid = ''4'', process = ''d''\<rparr>]
       \<lparr>format = ''text'', range_start = None, range_end = None\<rparr>) =
   {(''TCP'', 7999, ''1''), (''TCP'', 8101, ''4'')}"
proof -
  let ?o = "\<lparr>format = ''text'', range_start = Some 8000, range_end = Some 8100\<rparr>"
  let ?n = "\<lparr>format = ''text'', range_start = None, range_end = None\<rparr>"
  let ?es = "[\<lparr>proto = ''TCP'', port = 7999, pid = ''1'', process = ''a''\<rparr>,
        \<lparr>proto = ''TCP'', port = 8000, pid = ''2'', process = ''b''\<rparr>,
        \<lparr>proto = ''TCP'', port = 8100, pid = ''3'', process = ''c''\<rparr>,
        \<lparr>proto = ''TCP'', port = 8101, pid = ''4'', process = ''d''\<rparr>]"
  let ?fs = "[\<lparr>proto = ''TCP'', port = 7999, pid = ''1'', process = ''a''\<rparr>,
        \<lparr>proto = ''TCP'', port = 8101, pid = ''4'', process = ''d''\<rparr>]"
  have h: "range_start ?o = Some 8000 \<and> range_end ?o = Some 8100" by simp
  have g: "range_start ?n = None \<or> range_end ?n = None" by simp
  have a: "entry_key ` set (filter_ports ?es ?o) =
           entry_key ` {e \<in> set ?es. 8000 \<le> port e \<and> port e \<le> 8100}"
    using filter_ports_range [of ?o 8000 8100 ?es] h by blast
  have b: "entry_key ` set (filter_ports ?fs ?n) = entry_key ` set ?fs"
    using filter_ports_range [of ?n 0 0 ?fs] g by blast
  have a': "entry_key ` {e \<in> set ?es. 8000 \<le> port e \<and> port e \<le> 8100} =
            {(''TCP'', 8000, ''2''), (''TCP'', 8100, ''3'')}"
  proof -
    have "{e \<in> set ?es. 8000 \<le> port e \<and> port e \<le> 8100} =
          set (filter (\<lambda>e. 8000 \<le> port e \<and> port e \<le> 8100) ?es)"
      by (simp only: set_filter)
    also have "filter (\<lambda>e. 8000 \<le> port e \<and> port e \<le> 8100) ?es =
          [\<lparr>proto = ''TCP'', port = 8000, pid = ''2'', process = ''b''\<rparr>,
           \<lparr>proto = ''TCP'', port = 8100, pid = ''3'', process = ''c''\<rparr>]"
      by simp
    finally show ?thesis
      by (simp add: entry_key_def)
  qed
  have b': "entry_key ` set ?fs = {(''TCP'', 7999, ''1''), (''TCP'', 8101, ''4'')}"
    by (auto simp: entry_key_def)
  show ?thesis
    using h g a b unfolding a' b' by blast
qed

text \<open>
  Claim C3. The result of \<open>filter_ports\<close> is in ascending order of port, entries of
  equal port in the lexical order of their protocol (\<open>TCP\<close> is below \<open>UDP\<close>). This
  holds for every rearrangement of the input, and the sequence of (port, protocol) pairs
  of the result is the same for all of them.
\<close>

theorem filter_ports_sorted:
  "sorted_wrt (\<lambda>a b. port a < port b \<or> port a = port b \<and> proto a \<le> proto b)
     (filter_ports entries opts) \<and>
   (''TCP'' :: string) < ''UDP'' \<and>
   (mset entries' = mset entries \<longrightarrow>
      sorted_wrt (\<lambda>a b. port a < port b \<or> port a = port b \<and> proto a \<le> proto b)
        (filter_ports entries' opts) \<and>
      map (\<lambda>e. (port e, proto e)) (filter_ports entries' opts) =
      map (\<lambda>e. (port e, proto e)) (filter_ports entries opts))"
proof (intro conjI impI)
  have s: "\<And>es. sorted_wrt (\<lambda>a b. port a < port b \<or> port a = port b \<and> proto a \<le> proto b)
     (filter_ports es opts)"
  proof -
    fix es
    obtain xs where "filter_ports es opts = sort_key (\<lambda>e. (port e, proto e)) (dedup xs {} [])"
      using filter_ports_shape by blast
    then show "sorted_wrt (\<lambda>a b. port a < port b \<or> port a = port b \<and> proto a \<le> proto b)
     (filter_ports es opts)"
      by (simp only: sorted_wrt_port_proto)
  qed
  show "sorted_wrt (\<lambda>a b. port a < port b \<or> port a = port b \<and> proto a \<le> proto b)
     (filter_ports entries opts)" by (rule s)
  show "(''TCP'' :: string) < ''UDP''" by (simp add: less_char_def)
  assume p: "mset entries' = mset entries"
  show "sorted_wrt (\<lambda>a b. port a < port b \<or> port a = port b \<and> proto a \<le> proto b)
     (filter_ports entries' opts)" by (rule s)
  have st: "set entries' = set entries"
    using p by (rule mset_eq_setD)
  show "map (\<lambda>e. (port e, proto e)) (filter_ports entries' opts) =
      map (\<lambda>e. (port e, proto e)) (filter_ports entries opts)"
  proof (cases "range_start opts = None \<or> range_end opts = None")
    case True
    then show ?thesis
      using sort_dedup_perm [OF st] by (simp add: filter_ports_None)
  next
    case False
    then obtain lo hi where r: "range_start opts = Some lo" "range_end opts = Some hi"
      by auto
    have "set (filter (\<lambda>e. lo \<le> port e \<and> port e \<le> hi) entries') =
          set (filter (\<lambda>e. lo \<le> port e \<and> port e \<le> hi) entries)"
      using st by simp
    from sort_dedup_perm [OF this] show ?thesis
      by (simp add: filter_ports_Some [OF r])
  qed
qed

theorem filter_ports_sorted_witness:
  "mset [\<lparr>proto = ''UDP'', port = 53, pid = ''7'', process = ''dns''\<rparr>,
         \<lparr>proto = ''TCP'', port = 53, pid = ''7'', process = ''dns''\<rparr>,
         \<lparr>proto = ''TCP'', port = 22, pid = ''1'', process = ''sshd''\<rparr>] =
   mset [\<lparr>proto = ''TCP'', port = 22, pid = ''1'', process = ''sshd''\<rparr>,
         \<lparr>proto = ''UDP'', port = 53, pid = ''7'', process = ''dns''\<rparr>,
         \<lparr>proto = ''TCP'', port = 53, pid = ''7'', process = ''dns''\<rparr>] \<and>
   map (\<lambda>e. (port e, proto e))
     (filter_ports
        [\<lparr>proto = ''UDP'', port = 53, pid = ''7'', process = ''dns''\<rparr>,
         \<lparr>proto = ''TCP'', port = 53, pid = ''7'', process = ''dns''\<rparr>,
         \<lparr>proto = ''TCP'', port = 22, pid = ''1'', process = ''sshd''\<rparr>]
        \<lparr>format = ''text'', range_start = None, range_end = None\<rparr>) =
   map (\<lambda>e. (port e, proto e))
     (filter_ports
        [\<lparr>proto = ''TCP'', port = 22, pid = ''1'', process = ''sshd''\<rparr>,
         \<lparr>proto = ''UDP'', port = 53, pid = ''7'', process = ''dns''\<rparr>,
         \<lparr>proto = ''TCP'', port = 53, pid = ''7'', process = ''dns''\<rparr>]
        \<lparr>format = ''text'', range_start = None, range_end = None\<rparr>)"
proof -
  let ?a = "\<lparr>proto = ''UDP'', port = 53, pid = ''7'', process = ''dns''\<rparr>"
  let ?b = "\<lparr>proto = ''TCP'', port = 53, pid = ''7'', process = ''dns''\<rparr>"
  let ?c = "\<lparr>proto = ''TCP'', port = 22, pid = ''1'', process = ''sshd''\<rparr>"
  have h: "mset [?a, ?b, ?c] = mset [?c, ?a, ?b]" by simp
  show ?thesis
    using filter_ports_sorted [of "[?c, ?a, ?b]"
        "\<lparr>format = ''text'', range_start = None, range_end = None\<rparr>" "[?a, ?b, ?c]"] h
    by blast
qed

text \<open>
  Claim C4. The uniqueness key of \<open>filter_ports\<close> is the triple (protocol, port, pid):
  the result holds exactly one entry for each triple of the entries that pass the range
  filter, no triple twice and none lost, so its length is the number of those triples;
  a second entry that differs from the first in its process name only adds nothing.
\<close>

theorem filter_ports_dedup:
  "distinct (map entry_key (filter_ports entries opts)) \<and>
   (entry_key e2 = entry_key e1 \<longrightarrow> filter_ports [e1, e2] opts = filter_ports [e1] opts) \<and>
   (range_start opts = None \<or> range_end opts = None \<longrightarrow>
      entry_key ` set (filter_ports entries opts) = entry_key ` set entries \<and>
      length (filter_ports entries opts) = card (entry_key ` set entries)) \<and>
   (range_start opts = Some lo \<and> range_end opts = Some hi \<longrightarrow>
      entry_key ` set (filter_ports entries opts) =
        entry_key ` {e \<in> set entries. lo \<le> port e \<and> port e \<le> hi} \<and>
      length (filter_ports entries opts) =
        card (entry_key ` {e \<in> set entries. lo \<le> port e \<and> port e \<le> hi}))"
proof -
  obtain es where eq: "filter_ports entries opts = sort_key (\<lambda>e. (port e, proto e)) (dedup es {} [])"
    using filter_ports_shape by blast
  have d: "distinct (map entry_key (dedup es {} []))"
    by (rule dedup_distinct) simp_all
  have "mset (map entry_key (filter_ports entries opts)) = mset (map entry_key (dedup es {} []))"
    by (simp add: eq)
  then have dist: "distinct (map entry_key (filter_ports entries opts))"
    using d by (metis distinct_count_atmost_1 set_mset_mset)
  have len: "length (filter_ports entries opts) = card (entry_key ` set (filter_ports entries opts))"
    using distinct_card [OF dist] by simp
  have pair: "entry_key e2 = entry_key e1 \<longrightarrow> filter_ports [e1, e2] opts = filter_ports [e1] opts"
    by (auto simp: filter_ports_def Let_def entry_key_def split: option.splits)
  have keys: "entry_key ` set (sort_key (\<lambda>e. (port e, proto e)) (dedup xs {} [])) =
              entry_key ` set xs" for xs
    using dedup_keys [of xs "{}" "[]"] by simp
  have none: "entry_key ` set (filter_ports entries opts) = entry_key ` set entries"
    if "range_start opts = None \<or> range_end opts = None"
    unfolding filter_ports_None [OF that] by (rule keys)
  have some: "entry_key ` set (filter_ports entries opts) =
        entry_key ` {e \<in> set entries. lo \<le> port e \<and> port e \<le> hi}"
    if "range_start opts = Some lo" "range_end opts = Some hi"
    unfolding filter_ports_Some [OF that] keys by simp
  show ?thesis
    using dist pair none some len by simp
qed

theorem filter_ports_dedup_witness:
  "entry_key \<lparr>proto = ''TCP'', port = 443, pid = ''99'', process = ''nginx: worker''\<rparr> =
   entry_key \<lparr>proto = ''TCP'', port = 443, pid = ''99'', process = ''nginx''\<rparr> \<and>
   filter_ports
     [\<lparr>proto = ''TCP'', port = 443, pid = ''99'', process = ''nginx''\<rparr>,
      \<lparr>proto = ''TCP'', port = 443, pid = ''99'', process = ''nginx: worker''\<rparr>]
     \<lparr>format = ''text'', range_start = None, range_end = None\<rparr> =
   [\<lparr>proto = ''TCP'', port = 443, pid = ''99'', process = ''nginx''\<rparr>] \<and>
   length (filter_ports
     [\<lparr>proto = ''TCP'', port = 443, pid = ''99'', process = ''nginx''\<rparr>,
      \<lparr>proto = ''TCP'', port = 443, pid = ''99'', process = ''nginx: worker''\<rparr>,
      \<lparr>proto = ''TCP'', port = 443, pid = ''100'', process = ''nginx''\<rparr>,
      \<lparr>proto = ''UDP'', port = 443, pid = ''99'', process = ''nginx''\<rparr>,
      \<lparr>proto = ''TCP'', port = 8443, pid = ''99'', process = ''nginx''\<rparr>]
     \<lparr>format = ''text'', range_start = Some 1, range_end = Some 1024\<rparr>) = 3"
proof -
  let ?a = "\<lparr>proto = ''TCP'', port = 443, pid = ''99'', process = ''nginx''\<rparr>"
  let ?b = "\<lparr>proto = ''TCP'', port = 443, pid = ''99'', process = ''nginx: worker''\<rparr>"
  let ?c = "\<lparr>proto = ''TCP'', port = 443, pid = ''100'', process = ''nginx''\<rparr>"
  let ?d = "\<lparr>proto = ''UDP'', port = 443, pid = ''99'', process = ''nginx''\<rparr>"
  let ?e = "\<lparr>proto = ''TCP'', port = 8443, pid = ''99'', process = ''nginx''\<rparr>"
  let ?n = "\<lparr>format = ''text'', range_start = None, range_end = None\<rparr>"
  let ?o = "\<lparr>format = ''text'', range_start = Some 1, range_end = Some 1024\<rparr>"
  have h: "entry_key ?b = entry_key ?a" by (simp add: entry_key_def)
  have "filter_ports [?a, ?b] ?n = filter_ports [?a] ?n"
    using filter_ports_dedup [of "[]" ?n ?b ?a] h by blast
  moreover have "filter_ports [?a] ?n = [?a]"
    by (simp add: filter_ports_def)
  ultimately have one: "filter_ports [?a, ?b] ?n = [?a]" by simp
  have r: "range_start ?o = Some 1 \<and> range_end ?o = Some 1024" by simp
  have "{x \<in> set [?a, ?b, ?c, ?d, ?e]. 1 \<le> port x \<and> port x \<le> 1024} =
        set (filter (\<lambda>x. 1 \<le> port x \<and> port x \<le> 1024) [?a, ?b, ?c, ?d, ?e])"
    by (simp only: set_filter)
  also have "filter (\<lambda>x. 1 \<le> port x \<and> port x \<le> 1024) [?a, ?b, ?c, ?d, ?e] = [?a, ?b, ?c, ?d]"
    by simp
  finally have k: "entry_key ` {x \<in> set [?a, ?b, ?c, ?d, ?e]. 1 \<le> port x \<and> port x \<le> 1024} =
      {(''TCP'', 443, ''99''), (''TCP'', 443, ''100''), (''UDP'', 443, ''99'')}"
    by (simp add: entry_key_def)
  have "length (filter_ports [?a, ?b, ?c, ?d, ?e] ?o) =
        card (entry_key ` {x \<in> set [?a, ?b, ?c, ?d, ?e]. 1 \<le> port x \<and> port x \<le> 1024})"
    using filter_ports_dedup [of "[?a, ?b, ?c, ?d, ?e]" ?o _ _ 1 1024] r by blast
  then have three: "length (filter_ports [?a, ?b, ?c, ?d, ?e] ?o) = 3"
    unfolding k by simp
  show ?thesis using h one three by simp
qed

text \<open>
  Claim C9. \<open>filter_ports\<close> selects and reorders: its result, counted with
  multiplicity, is part of the input, so every entry of the result is an entry of the
  input with its four fields as they were.
\<close>

theorem filter_ports_frame:
  "mset (filter_ports entries opts) \<subseteq># mset entries \<and> set (filter_ports entries opts) \<subseteq> set entries"
proof -
  obtain es where es: "mset es \<subseteq># mset entries"
    and eq: "filter_ports entries opts = sort_key (\<lambda>e. (port e, proto e)) (dedup es {} [])"
    using filter_ports_shape by blast
  have "mset (dedup es {} []) \<subseteq># mset es"
    using dedup_mset [of es "{}" "[]"] by simp
  then have m: "mset (filter_ports entries opts) \<subseteq># mset entries"
    using es eq by (simp add: subset_mset.trans)
  then show ?thesis
    using set_mset_mono [OF m] by simp
qed

theorem filter_ports_frame_witness:
  "set (filter_ports
     [\<lparr>proto = ''TCP'', port = 443, pid = ''99'', process = ''nginx''\<rparr>,
      \<lparr>proto = ''TCP'', port = 80, pid = ''99'', process = ''nginx''\<rparr>]
     \<lparr>format = ''text'', range_start = Some 1, range_end = Some 1024\<rparr>) \<subseteq>
   {\<lparr>proto = ''TCP'', port = 443, pid = ''99'', process = ''nginx''\<rparr>,
    \<lparr>proto = ''TCP'', port = 80, pid = ''99'', process = ''nginx''\<rparr>}"
  using filter_ports_frame
    [of "[\<lparr>proto = ''TCP'', port = 443, pid = ''99'', process = ''nginx''\<rparr>,
          \<lparr>proto = ''TCP'', port = 80, pid = ''99'', process = ''nginx''\<rparr>]"
        "\<lparr>format = ''text'', range_start = Some 1, range_end = Some 1024\<rparr>"]
  by simp

section \<open>Properties of argument parsing\<close>

text \<open>One step of the loop for each flag.\<close>

lemma parse_loop_help: "parse_loop (''--help'' # rest) opts = SysExit 0 [usage_text] []"
  by simp

lemma parse_loop_common:
  "parse_loop (''--common'' # rest) opts =
   parse_loop rest (opts\<lparr>range_start := Some 1, range_end := Some 1024\<rparr>)"
  by simp

lemma parse_loop_range_Nil:
  "parse_loop [''--range''] opts = SysExit 1 [] [''Error: --range requires START-END argument'']"
  by simp

lemma parse_loop_range_Cons:
  "parse_loop (''--range'' # v # rest) opts =
     (if length (split_on (CHR ''-'') v) \<noteq> 2
      then SysExit 1 [] [''Error: --range format must be START-END'']
      else
        (case py_int (split_on (CHR ''-'') v ! 0) of
           None \<Rightarrow> Raised (ValueError (split_on (CHR ''-'') v ! 0))
         | Some a \<Rightarrow>
             (case py_int (split_on (CHR ''-'') v ! 1) of
                None \<Rightarrow> Raised (ValueError (split_on (CHR ''-'') v ! 1))
              | Some b \<Rightarrow> parse_loop rest (opts\<lparr>range_start := Some a, range_end := Some b\<rparr>))))"
  by (simp add: Let_def)

lemma parse_loop_format_Nil:
  "parse_loop [''--format''] opts = SysExit 1 [] [''Error: --format requires text|json argument'']"
  by simp

lemma parse_loop_format_Cons:
  "parse_loop (''--format'' # v # rest) opts =
     (if v \<noteq> ''text'' \<and> v \<noteq> ''json'' then SysExit 1 [] [''Error: --format must be text or json'']
      else parse_loop rest (opts\<lparr>format := v\<rparr>))"
  by simp

lemma parse_loop_other:
  "arg \<noteq> ''--help'' \<Longrightarrow> arg \<noteq> ''--common'' \<Longrightarrow> arg \<noteq> ''--range'' \<Longrightarrow> arg \<noteq> ''--format'' \<Longrightarrow>
   parse_loop (arg # rest) opts = SysExit 1 [] [''Unknown option: '' @ arg]"
  by simp

lemmas parse_step = parse_loop_help parse_loop_common parse_loop_range_Nil parse_loop_range_Cons
  parse_loop_format_Nil parse_loop_format_Cons

text \<open>
  A prefix of the arguments that is parsed to the end leaves the loop in the state from
  which the rest is parsed.
\<close>

lemma parse_loop_append:
  "parse_loop xs opts = Parsed opts' \<Longrightarrow> parse_loop (xs @ ys) opts = parse_loop ys opts'"
proof (induction xs arbitrary: opts rule: length_induct)
  case (1 xs)
  note IH = "1.IH" [rule_format]
  show ?case
  proof (cases xs)
    case Nil
    then show ?thesis using "1.prems" by simp
  next
    case (Cons arg rest)
    note xs = Cons
    consider (is_help) "arg = ''--help''" | (is_common) "arg = ''--common''"
      | (is_range) "arg = ''--range''" | (is_format) "arg = ''--format''"
      | (other) "arg \<noteq> ''--help''" "arg \<noteq> ''--common''" "arg \<noteq> ''--range''" "arg \<noteq> ''--format''"
      by blast
    then show ?thesis
    proof cases
      case is_help
      then show ?thesis using "1.prems" xs
        by (simp del: parse_loop.simps add: parse_step)
    next
      case is_common
      have "parse_loop rest (opts\<lparr>range_start := Some 1, range_end := Some 1024\<rparr>) = Parsed opts'"
        using "1.prems" unfolding xs is_common parse_loop_common .
      from IH [OF _ this] show ?thesis
        unfolding xs is_common by (simp del: parse_loop.simps add: parse_step)
    next
      case is_range
      show ?thesis
      proof (cases rest)
        case Nil
        then show ?thesis using "1.prems" unfolding xs is_range
          by (simp del: parse_loop.simps add: parse_step)
      next
        case (Cons v rest')
        note p = "1.prems" [unfolded xs is_range Cons parse_loop_range_Cons]
        from p obtain a b where l: "length (split_on (CHR ''-'') v) = 2"
          and a: "py_int (split_on (CHR ''-'') v ! 0) = Some a"
          and b: "py_int (split_on (CHR ''-'') v ! 1) = Some b"
          and r: "parse_loop rest' (opts\<lparr>range_start := Some a, range_end := Some b\<rparr>) = Parsed opts'"
          by (auto split: if_splits option.splits)
        have "length rest' < length xs" unfolding xs Cons by simp
        from IH [OF this r] show ?thesis
          unfolding xs is_range Cons using l a b
          by (simp del: parse_loop.simps add: parse_step)
      qed
    next
      case is_format
      show ?thesis
      proof (cases rest)
        case Nil
        then show ?thesis using "1.prems" unfolding xs is_format
          by (simp del: parse_loop.simps add: parse_step)
      next
        case (Cons v rest')
        note p = "1.prems" [unfolded xs is_format Cons parse_loop_format_Cons]
        from p have v: "\<not> (v \<noteq> ''text'' \<and> v \<noteq> ''json'')"
          and r: "parse_loop rest' (opts\<lparr>format := v\<rparr>) = Parsed opts'"
          by (auto split: if_splits)
        have "length rest' < length xs" unfolding xs Cons by simp
        from IH [OF this r] show ?thesis
          unfolding xs is_format Cons using v
          by (auto simp del: parse_loop.simps simp add: parse_step)
      qed
    next
      case other
      then show ?thesis using "1.prems" unfolding xs
        by (simp del: parse_loop.simps add: parse_loop_other)
    qed
  qed
qed

lemma split_on_from_no_sep:
  "sep \<notin> set b \<Longrightarrow> split_on_from sep w b = [w @ b]"
  by (induction b arbitrary: w) auto

lemma split_on_from_one_sep:
  "sep \<notin> set a \<Longrightarrow> sep \<notin> set b \<Longrightarrow> split_on_from sep w (a @ sep # b) = [w @ a, b]"
  by (induction a arbitrary: w) (auto simp: split_on_from_no_sep)

lemma split_on_two:
  "sep \<notin> set a \<Longrightarrow> sep \<notin> set b \<Longrightarrow> split_on sep (a @ sep # b) = [a, b]"
  using split_on_from_one_sep [of sep a b "[]"] by (simp add: split_on_def)

text \<open>
  Claim C10. The last flag wins. After any arguments \<open>pre\<close> that parse to the options
  \<open>opts\<close>, a further \<^verbatim>\<open>--range A-B\<close> sets the bounds to \<open>[A, B]\<close>, a further
  \<^verbatim>\<open>--common\<close> sets them to \<open>[1, 1024]\<close>, and a further \<^verbatim>\<open>--format f\<close> with a valid
  \<open>f\<close> sets the output mode to \<open>f\<close>, whatever \<open>pre\<close> had set; the fields the flag
  does not name keep the value they had.
\<close>

theorem parse_args_last_wins:
  "parse_args pre = Parsed opts \<Longrightarrow>
     (CHR ''-'' \<notin> set a \<and> CHR ''-'' \<notin> set b \<and> py_int a = Some A \<and> py_int b = Some B \<longrightarrow>
        parse_args (pre @ [''--range'', a @ ''-'' @ b]) =
          Parsed (opts\<lparr>range_start := Some A, range_end := Some B\<rparr>)) \<and>
     parse_args (pre @ [''--common'']) =
       Parsed (opts\<lparr>range_start := Some 1, range_end := Some 1024\<rparr>) \<and>
     (f = ''text'' \<or> f = ''json'' \<longrightarrow>
        parse_args (pre @ [''--format'', f]) = Parsed (opts\<lparr>format := f\<rparr>))"
proof -
  assume p: "parse_args pre = Parsed opts"
  have step: "parse_args (pre @ ys) = parse_loop ys opts" for ys
    using p parse_loop_append unfolding parse_args_def by blast
  have r: "parse_loop [''--range'', a @ ''-'' @ b] opts =
      Parsed (opts\<lparr>range_start := Some A, range_end := Some B\<rparr>)"
    if "CHR ''-'' \<notin> set a" "CHR ''-'' \<notin> set b" "py_int a = Some A" "py_int b = Some B"
    using that split_on_two [of "CHR ''-''" a b]
    by (simp del: parse_loop.simps(2) add: parse_step)
  have c: "parse_loop [''--common''] opts = Parsed (opts\<lparr>range_start := Some 1, range_end := Some 1024\<rparr>)"
    by (simp del: parse_loop.simps(2) add: parse_step)
  have f: "parse_loop [''--format'', f] opts = Parsed (opts\<lparr>format := f\<rparr>)"
    if "f = ''text'' \<or> f = ''json''"
    using that by (auto simp del: parse_loop.simps(2) simp add: parse_step)
  show ?thesis
    unfolding step using r c f by blast
qed

theorem parse_args_last_wins_witness:
  "parse_args [''--common'', ''--range'', ''3000-9000''] =
     Parsed \<lparr>format = ''text'', range_start = Some 3000, range_end = Some 9000\<rparr> \<and>
   parse_args [''--range'', ''3000-9000'', ''--common''] =
     Parsed \<lparr>format = ''text'', range_start = Some 1, range_end = Some 1024\<rparr> \<and>
   parse_args [''--format'', ''json'', ''--format'', ''text''] =
     Parsed \<lparr>format = ''text'', range_start = None, range_end = None\<rparr> \<and>
   parse_args [''--format'', ''text'', ''--format'', ''json''] =
     Parsed \<lparr>format = ''json'', range_start = None, range_end = None\<rparr>"
proof -
  have a: "py_int ''3000'' = Some 3000" by code_simp
  have b: "py_int ''9000'' = Some 9000" by code_simp
  have d: "CHR ''-'' \<notin> set ''3000'' \<and> CHR ''-'' \<notin> set ''9000''" by simp
  have p0: "parse_args [] = Parsed \<lparr>format = ''text'', range_start = None, range_end = None\<rparr>"
    by (simp add: parse_args_def)
  have p1: "parse_args [''--common''] =
      Parsed \<lparr>format = ''text'', range_start = Some 1, range_end = Some 1024\<rparr>"
    using parse_args_last_wins [OF p0] by simp
  have p2: "parse_args [''--range'', ''3000-9000''] =
      Parsed \<lparr>format = ''text'', range_start = Some 3000, range_end = Some 9000\<rparr>"
    using parse_args_last_wins [OF p0, of "''3000''" "''9000''" 3000 9000] a b d by simp
  have p3: "parse_args [''--format'', ''json''] =
      Parsed \<lparr>format = ''json'', range_start = None, range_end = None\<rparr>"
    using parse_args_last_wins [OF p0, of _ _ _ _ "''json''"] by simp
  have p4: "parse_args [''--format'', ''text''] =
      Parsed \<lparr>format = ''text'', range_start = None, range_end = None\<rparr>"
    using parse_args_last_wins [OF p0, of _ _ _ _ "''text''"] by simp
  show ?thesis
    using parse_args_last_wins [OF p1, of "''3000''" "''9000''" 3000 9000] a b d
      parse_args_last_wins [OF p2]
      parse_args_last_wins [OF p3, of _ _ _ _ "''text''"]
      parse_args_last_wins [OF p4, of _ _ _ _ "''json''"]
    by simp
qed

lemma parse_loop_range_fails:
  assumes "''--help'' \<notin> set pre"
    and "length (split_on (CHR ''-'') v) \<noteq> 2 \<or> (\<exists>p \<in> set (split_on (CHR ''-'') v). py_int p = None)"
  shows "(\<exists>err. parse_loop (pre @ ''--range'' # v # post) opts = SysExit 1 [] err \<and> err \<noteq> []) \<or>
         (\<exists>e. parse_loop (pre @ ''--range'' # v # post) opts = Raised e)"
  using assms(1)
proof (induction pre arbitrary: opts rule: length_induct)
  case (1 xs)
  note IH = "1.IH" [rule_format]
  show ?case
  proof (cases xs)
    case Nil
    show ?thesis
    proof (cases "length (split_on (CHR ''-'') v) = 2")
      case False
      then show ?thesis unfolding Nil
        by (simp del: parse_loop.simps add: parse_step)
    next
      case True
      then obtain a b where ab: "split_on (CHR ''-'') v = [a, b]"
        by (cases "split_on (CHR ''-'') v"; simp; rename_tac x xs; case_tac xs; simp)
      with assms(2) have "py_int a = None \<or> py_int b = None" by auto
      then show ?thesis unfolding Nil using ab
        by (auto simp del: parse_loop.simps simp add: parse_step split: option.splits)
    qed
  next
    case (Cons arg rest)
    note xs = Cons
    have nh: "arg \<noteq> ''--help''" "''--help'' \<notin> set rest"
      using "1.prems" unfolding xs by auto
    have dash: "split_on (CHR ''-'') ''--range'' = ['''', '''', ''range'']"
      by (simp add: split_on_def)
    consider (is_common) "arg = ''--common''"
      | (is_range) "arg = ''--range''" | (is_format) "arg = ''--format''"
      | (other) "arg \<noteq> ''--help''" "arg \<noteq> ''--common''" "arg \<noteq> ''--range''" "arg \<noteq> ''--format''"
      using nh by blast
    then show ?thesis
    proof cases
      case is_common
      from IH [OF _ nh(2)] show ?thesis
        unfolding xs is_common by (simp del: parse_loop.simps add: parse_step)
    next
      case is_range
      show ?thesis
      proof (cases rest)
        case Nil
        then show ?thesis unfolding xs is_range using dash
          by (simp del: parse_loop.simps add: parse_step)
      next
        case (Cons v' rest')
        have "length rest' < length xs" "''--help'' \<notin> set rest'"
          using nh unfolding xs Cons by simp_all
        from IH [OF this] show ?thesis
          unfolding xs is_range Cons
          by (auto simp del: parse_loop.simps simp add: parse_step split: option.splits)
      qed
    next
      case is_format
      show ?thesis
      proof (cases rest)
        case Nil
        then show ?thesis unfolding xs is_format
          by (simp del: parse_loop.simps add: parse_step)
      next
        case (Cons v' rest')
        have "length rest' < length xs" "''--help'' \<notin> set rest'"
          using nh unfolding xs Cons by simp_all
        from IH [OF this] show ?thesis
          unfolding xs is_format Cons
          by (auto simp del: parse_loop.simps simp add: parse_step)
      qed
    next
      case other
      then show ?thesis unfolding xs
        by (simp del: parse_loop.simps add: parse_loop_other)
    qed
  qed
qed

text \<open>
  Claim C8, as amended. When no \<^verbatim>\<open>--help\<close> stands before it, a \<^verbatim>\<open>--range\<close> followed
  by a value that does not split at \<^verbatim>\<open>-\<close> into exactly two parts, or that has a part
  which \<^verbatim>\<open>int()\<close> rejects, ends the run with exit status 1, nothing on the standard
  output and something on the error stream (the message of \<^verbatim>\<open>parse_args\<close>, or the
  traceback of the uncaught \<^verbatim>\<open>ValueError\<close>).
\<close>

theorem range_malformed_exit:
  assumes "''--help'' \<notin> set pre"
    and "length (split_on (CHR ''-'') v) \<noteq> 2 \<or> (\<exists>p \<in> set (split_on (CHR ''-'') v). py_int p = None)"
  shows "exit_status (main system run (pre @ ''--range'' # v # post)) = 1 \<and>
         stdout (main system run (pre @ ''--range'' # v # post)) = [] \<and>
         stderr (main system run (pre @ ''--range'' # v # post)) \<noteq> []"
  using parse_loop_range_fails [OF assms, of post "\<lparr>format = ''text'', range_start = None, range_end = None\<rparr>"]
  by (auto simp: main_def parse_args_def)

theorem range_malformed_exit_witness:
  "''--help'' \<notin> set [''--format'', ''json''] \<and>
   split_on (CHR ''-'') ''3000-9k'' = [''3000'', ''9k''] \<and> py_int ''9k'' = None \<and>
   length (split_on (CHR ''-'') ''3000'') \<noteq> 2 \<and>
   exit_status (main ''Linux'' no_tools [''--format'', ''json'', ''--range'', ''3000-9k'', ''--common'']) = 1 \<and>
   stdout (main ''Linux'' no_tools [''--format'', ''json'', ''--range'', ''3000-9k'', ''--common'']) = [] \<and>
   stderr (main ''Linux'' no_tools [''--format'', ''json'', ''--range'', ''3000-9k'', ''--common'']) \<noteq> [] \<and>
   exit_status (main ''Linux'' no_tools [''--range'', ''3000'']) = 1 \<and>
   stdout (main ''Linux'' no_tools [''--range'', ''3000'']) = [] \<and>
   stderr (main ''Linux'' no_tools [''--range'', ''3000'']) \<noteq> []"
proof -
  have h: "''--help'' \<notin> set [''--format'', ''json'']" by simp
  have s: "split_on (CHR ''-'') ''3000-9k'' = [''3000'', ''9k'']" by (simp add: split_on_def)
  have k: "py_int ''9k'' = None" by code_simp
  have m: "\<exists>p \<in> set (split_on (CHR ''-'') ''3000-9k''). py_int p = None"
    unfolding s using k by simp
  have n: "length (split_on (CHR ''-'') ''3000'') \<noteq> 2" by (simp add: split_on_def)
  have h0: "''--help'' \<notin> set []" by simp
  show ?thesis
    using range_malformed_exit [OF h disjI2 [OF m], of "''Linux''" no_tools "[''--common'']"]
      range_malformed_exit [OF h0 disjI1 [OF n], of "''Linux''" no_tools "[]"] h s k n
    by simp
qed

text \<open>
  Claim C8 as stated fails when \<^verbatim>\<open>--help\<close> comes first: the usage text goes to the
  standard output and the exit status is 0, whatever follows.
\<close>

theorem range_after_help_counterexample:
  "length (split_on (CHR ''-'') ''abc'') \<noteq> 2 \<and>
   exit_status (main ''Linux'' no_tools [''--help'', ''--range'', ''abc'']) = 0 \<and>
   stdout (main ''Linux'' no_tools [''--help'', ''--range'', ''abc'']) = [usage_text] \<and>
   stderr (main ''Linux'' no_tools [''--help'', ''--range'', ''abc'']) = []"
  by (simp add: split_on_def main_def parse_args_def)

section \<open>Properties of the enumerators\<close>



































text \<open>
  Claim C6. For the raw lines \<^verbatim>\<open>Header\<close> and \<^verbatim>\<open>node 1234 ... *:8080 (LISTEN)\<close>, where
  the dots stand for the six columns of \<^verbatim>\<open>lsof\<close> between the pid and the address, the
  TCP loop of \<^verbatim>\<open>scan_macos\<close> skips the header and yields exactly the entry
  (TCP, 8080, "1234", "node").
\<close>

theorem lsof_tcp_scenario:
  "split_ws line = [''node'', ''1234'', c2, c3, c4, c5, c6, c7, ''*:8080'', ''(LISTEN)''] \<Longrightarrow>
   lsof_lines ''TCP'' (drop 1 [''Header'', line]) [] =
     Inr [\<lparr>proto = ''TCP'', port = 8080, pid = ''1234'', process = ''node''\<rparr>]"
proof -
  assume c: "split_ws line = [''node'', ''1234'', c2, c3, c4, c5, c6, c7, ''*:8080'', ''(LISTEN)'']"
  have p: "port_search ''*:8080'' = Some ''8080''" by code_simp
  have v: "py_int ''8080'' = Some 8080" by code_simp
  show ?thesis using c p v by (simp add: Let_def)
qed

theorem lsof_tcp_scenario_witness:
  "split_ws ''node 1234 phil 23u IPv4 0x1234 0t0 TCP *:8080 (LISTEN)'' =
     [''node'', ''1234'', ''phil'', ''23u'', ''IPv4'', ''0x1234'', ''0t0'', ''TCP'', ''*:8080'', ''(LISTEN)''] \<and>
   lsof_lines ''TCP''
     (drop 1 [''Header'', ''node 1234 phil 23u IPv4 0x1234 0t0 TCP *:8080 (LISTEN)'']) [] =
     Inr [\<lparr>proto = ''TCP'', port = 8080, pid = ''1234'', process = ''node''\<rparr>]"
proof -
  have h: "split_ws ''node 1234 phil 23u IPv4 0x1234 0t0 TCP *:8080 (LISTEN)'' =
     [''node'', ''1234'', ''phil'', ''23u'', ''IPv4'', ''0x1234'', ''0t0'', ''TCP'', ''*:8080'', ''(LISTEN)'']"
    by code_simp
  show ?thesis
    using lsof_tcp_scenario [OF h] h by simp
qed




section \<open>Properties of the structured rendering\<close>

lemma dumps_entry:
  \<open>dumps 2 (entry_json e) =
     ''{'' @ [CHR 0x0A] @
     ''      "proto": '' @ json_string (proto e) @ '','' @ [CHR 0x0A] @
     ''      "port": '' @ int_repr (port e) @ '','' @ [CHR 0x0A] @
     ''      "pid": '' @ json_string (pid e) @ '','' @ [CHR 0x0A] @
     ''      "process": '' @ json_string (process e) @ [CHR 0x0A] @
     ''    }''\<close>
proof -
  have k: "json_string ''proto'' = CHR 0x22 # ''proto'' @ [CHR 0x22]"
    "json_string ''port'' = CHR 0x22 # ''port'' @ [CHR 0x22]"
    "json_string ''pid'' = CHR 0x22 # ''pid'' @ [CHR 0x22]"
    "json_string ''process'' = CHR 0x22 # ''process'' @ [CHR 0x22]"
    by (simp_all add: json_string_def json_escape_def)
  have r: "replicate 6 c = [c, c, c, c, c, c]" "replicate 4 c = [c, c, c, c]" for c :: char
    by (simp_all add: eval_nat_numeral)
  show ?thesis
    by (simp add: entry_json_def k newline_indent_def r)
qed

text \<open>
  Claim C5. \<^verbatim>\<open>format_json\<close> writes one object with the single key \<^verbatim>\<open>ports\<close>, whose
  value is the array of the entries in their order (\<^verbatim>\<open>[]\<close> when there is none), each
  entry an object with the protocol, the port, the pid and the process name, under the
  keys \<^verbatim>\<open>proto\<close>, \<^verbatim>\<open>port\<close>, \<^verbatim>\<open>pid\<close> and \<^verbatim>\<open>process\<close> in that order; every
  nesting level is indented by two more spaces.
\<close>

theorem format_json_text:
  \<open>format_json entries =
     ''{'' @ [CHR 0x0A] @
     ''  "ports": '' @
     (if entries = [] then ''[]''
      else ''['' @ [CHR 0x0A] @ ''    '' @
           join ('','' @ [CHR 0x0A] @ ''    '')
             (map (\<lambda>e. ''{'' @ [CHR 0x0A] @
                        ''      "proto": '' @ json_string (proto e) @ '','' @ [CHR 0x0A] @
                        ''      "port": '' @ int_repr (port e) @ '','' @ [CHR 0x0A] @
                        ''      "pid": '' @ json_string (pid e) @ '','' @ [CHR 0x0A] @
                        ''      "process": '' @ json_string (process e) @ [CHR 0x0A] @
                        ''    }'') entries) @
           [CHR 0x0A] @ ''  ]'') @
     [CHR 0x0A] @ ''}''\<close>
proof -
  have k: "json_string ''ports'' = CHR 0x22 # ''ports'' @ [CHR 0x22]"
    by (simp add: json_string_def json_escape_def)
  have e: "dumps (Suc (Suc 0)) (entry_json e) = dumps 2 (entry_json e)" for e
    by (simp add: numeral_2_eq_2)
  have r: "replicate 2 c = [c, c]" "replicate 4 c = [c, c, c, c]" for c :: char
    by (simp_all add: eval_nat_numeral)
  show ?thesis
    by (simp add: format_json_def k newline_indent_def comp_def e dumps_entry r)
qed

theorem format_json_text_witness:
  \<open>format_json [] = ''{'' @ [CHR 0x0A] @ ''  "ports": []'' @ [CHR 0x0A] @ ''}'' \<and>
   format_json [\<lparr>proto = ''TCP'', port = 8080, pid = ''1234'', process = ''node''\<rparr>,
                \<lparr>proto = ''UDP'', port = 53, pid = ''-'', process = ''-''\<rparr>] =
     ''{'' @ [CHR 0x0A] @
     ''  "ports": ['' @ [CHR 0x0A] @
     ''    {'' @ [CHR 0x0A] @
     ''      "proto": "TCP",'' @ [CHR 0x0A] @
     ''      "port": 8080,'' @ [CHR 0x0A] @
     ''      "pid": "1234",'' @ [CHR 0x0A] @
     ''      "process": "node"'' @ [CHR 0x0A] @
     ''    },'' @ [CHR 0x0A] @
     ''    {'' @ [CHR 0x0A] @
     ''      "proto": "UDP",'' @ [CHR 0x0A] @
     ''      "port": 53,'' @ [CHR 0x0A] @
     ''      "pid": "-",'' @ [CHR 0x0A] @
     ''      "process": "-"'' @ [CHR 0x0A] @
     ''    }'' @ [CHR 0x0A] @
     ''  ]'' @ [CHR 0x0A] @
     ''}''\<close>
proof -
  have s: \<open>json_string ''TCP'' = ''"TCP"''\<close> \<open>json_string ''UDP'' = ''"UDP"''\<close>
    \<open>json_string ''1234'' = ''"1234"''\<close> \<open>json_string ''node'' = ''"node"''\<close>
    \<open>json_string ''-'' = ''"-"''\<close>
    by code_simp+
  have i: "int_repr 8080 = ''8080''" "int_repr 53 = ''53''"
    by (simp_all add: int_repr_def digit_char_def)
  have a: \<open>format_json [] = ''{'' @ [CHR 0x0A] @ ''  "ports": []'' @ [CHR 0x0A] @ ''}''\<close>
    by (simp add: format_json_text)
  show ?thesis
    unfolding a by (simp add: format_json_text s i)
qed

end
